theory Spec2Isabelle
  imports Complex_Main "HOL-Library.Word"
begin

unbundle bit_operations_syntax

section \<open>Machine types of the two C programs\<close>

text \<open>
  \<open>uint32_t\<close> and \<open>unsigned int\<close> are 32-bit words. A C \<open>int\<close> is kept as a 32-bit word
  too and read as two's complement with \<open>sint\<close>, so the sentinel \<open>-1\<close> is the word
  \<open>- 1\<close>. \<open>size_t\<close> and \<open>uint64_t\<close> are 64-bit words.
\<close>

type_synonym uint32_t = "32 word"
type_synonym c_uint = "32 word"
type_synonym c_int = "32 word"
type_synonym size_t = "64 word"
type_synonym uint64_t = "64 word"

section \<open>Pag\_Virtual.c: one-level page table\<close>

text \<open>\<open>#define PAGE_SIZE (1 << 12)\<close>, the same in both files.\<close>

definition PAGE_SIZE :: c_int where
  "PAGE_SIZE = push_bit 12 1"

definition VIRTUAL_ADDRESS_BITS :: nat where
  "VIRTUAL_ADDRESS_BITS = 32"

definition PHYSICAL_ADDRESS_BITS :: nat where
  "PHYSICAL_ADDRESS_BITS = 21"

record PageTableEntry =
  presence_bit :: c_int
  modified_bit :: c_int
  page_frame :: c_int

definition page_table :: "PageTableEntry list" where
  "page_table =
    [\<lparr>presence_bit = 1, modified_bit = 1, page_frame = 0\<rparr>,
     \<lparr>presence_bit = 0, modified_bit = 0, page_frame = 8\<rparr>,
     \<lparr>presence_bit = 1, modified_bit = 0, page_frame = 9\<rparr>,
     \<lparr>presence_bit = 1, modified_bit = 1, page_frame = 14\<rparr>,
     \<lparr>presence_bit = 1, modified_bit = 0, page_frame = 3\<rparr>,
     \<lparr>presence_bit = 1, modified_bit = 0, page_frame = 7\<rparr>,
     \<lparr>presence_bit = 0, modified_bit = 1, page_frame = 25\<rparr>,
     \<lparr>presence_bit = 0, modified_bit = 1, page_frame = 16\<rparr>]"

text \<open>
  The lines the program writes to standard output, one constructor for each \<open>printf\<close>:
  \<^item> \<open>MsgOutOfBounds\<close>: the page number is outside the table (line 56);
  \<^item> \<open>MsgInSwap\<close>: the page is in swap, not in physical memory (line 63);
  \<^item> \<open>MsgFormat\<close>, \<open>MsgFormatPage\<close>, \<open>MsgFormatOffset\<close>, \<open>MsgPrompt\<close>: the banner and the
    prompt of \<open>main\<close> (lines 82 to 87);
  \<^item> \<open>MsgPhysical a\<close>: the physical address \<open>a\<close> (line 93);
  \<^item> \<open>MsgVirtualSize n\<close>: the size \<open>n\<close> of the virtual address space (line 98).
\<close>

datatype pag_line =
    MsgOutOfBounds
  | MsgInSwap
  | MsgFormat
  | MsgFormatPage
  | MsgFormatOffset
  | MsgPrompt
  | MsgPhysical c_int
  | MsgVirtualSize uint64_t

text \<open>
  The two locals of \<open>get_physical_address\<close> (lines 51 and 52). Both are computed in
  \<open>uint32_t\<close> and stored in an \<open>int\<close>.
\<close>

definition gpa_page_number :: "uint32_t \<Rightarrow> c_int" where
  "gpa_page_number virtual_address = drop_bit 12 virtual_address AND 0xFF"

definition gpa_offset :: "uint32_t \<Rightarrow> c_int" where
  "gpa_offset virtual_address = virtual_address AND (PAGE_SIZE - 1)"

text \<open>
  \<open>get_physical_address\<close> returns what it printed and its \<open>int\<close> result. The bound
  check compares in \<open>size_t\<close>: the \<open>int\<close> page number is sign-extended (\<open>scast\<close>), and
  \<open>sizeof(page_table) / sizeof(PageTableEntry)\<close> is the number of entries. The table
  is read only below that guard.
\<close>

definition get_physical_address :: "uint32_t \<Rightarrow> pag_line list \<times> c_int" where
  "get_physical_address virtual_address =
    (let page_number = gpa_page_number virtual_address;
         offset = gpa_offset virtual_address
     in if (scast page_number :: size_t) \<ge> of_nat (length page_table)
        then ([MsgOutOfBounds], - 1)
        else let entry = page_table ! nat (sint page_number)
             in if presence_bit entry = 0
                then ([MsgInSwap], - 1)
                else ([], page_frame entry * PAGE_SIZE + offset))"

text \<open>
  \<open>main\<close> of Pag\_Virtual.c, as a function of the value \<open>scanf\<close> left in
  \<open>virtual_address\<close>: the printed lines and the exit code.
\<close>

definition main_Pag_Virtual :: "uint32_t \<Rightarrow> pag_line list \<times> c_int" where
  "main_Pag_Virtual virtual_address =
    (let (printed, physical_address) = get_physical_address virtual_address;
         shown = (if physical_address \<noteq> - 1 then [MsgPhysical physical_address] else []);
         virtual_memory_size = (push_bit VIRTUAL_ADDRESS_BITS 1 :: uint64_t)
     in ([MsgFormat, MsgFormatPage, MsgFormatOffset, MsgPrompt] @ printed @ shown
          @ [MsgVirtualSize virtual_memory_size], 0))"

section \<open>C \<open>double\<close> arithmetic\<close>

text \<open>
  A \<open>double\<close> is an IEEE 754 binary64 number and every operation is rounded to binary64,
  to nearest with ties to even. \<open>Double m e\<close> stands for the number \<open>m * 2 ^ e\<close>; a
  rounded result is 0 or has \<open>2 ^ 52 \<le> \<bar>m\<bar> < 2 ^ 53\<close>. Overflow, subnormal numbers,
  infinities and NaN are left out: \<open>normal64\<close> is the range in which they do not occur,
  and \<open>double_bits\<close> is the 64-bit encoding of a number in that range.
\<close>

datatype double = Double (significand: int) (exponent: int)

definition double_value :: "double \<Rightarrow> real" where
  "double_value d =
    (if 0 \<le> exponent d then of_int (significand d) * 2 ^ nat (exponent d)
     else of_int (significand d) / 2 ^ nat (- exponent d))"

definition normal64 :: "double \<Rightarrow> bool" where
  "normal64 d =
    (2 ^ 52 \<le> \<bar>significand d\<bar> \<and> \<bar>significand d\<bar> < 2 ^ 53
      \<and> - 1074 \<le> exponent d \<and> exponent d \<le> 971)"

definition double_bits :: "double \<Rightarrow> 64 word" where
  "double_bits d =
    (if significand d < 0 then push_bit 63 1 else 0)
      OR push_bit 52 (word_of_int (exponent d + 1075))
      OR word_of_int (\<bar>significand d\<bar> - 2 ^ 52)"

text \<open>The number of binary digits of \<open>n\<close>.\<close>

function bit_length :: "int \<Rightarrow> int" where
  "bit_length n = (if n \<le> 0 then 0 else 1 + bit_length (n div 2))"
  by auto

termination
  by (relation "measure nat") auto

declare bit_length.simps [simp del]

text \<open>The integer nearest to \<open>a / b\<close> for \<open>0 \<le> a\<close> and \<open>0 < b\<close>, a tie going to the even one.\<close>

definition round_half_even :: "int \<Rightarrow> int \<Rightarrow> int" where
  "round_half_even a b =
    (let q = a div b; r = a mod b
     in if 2 * r < b then q
        else if b < 2 * r then q + 1
        else if even q then q else q + 1)"

text \<open>
  \<open>round64 num den ex\<close> is the binary64 number nearest to \<open>(num / den) * 2 ^ ex\<close>, for
  \<open>0 < den\<close>. The shift \<open>s\<close> brings \<open>\<bar>num\<bar> / den\<close> between \<open>2 ^ 52\<close> and \<open>2 ^ 54\<close>, one more
  halving brings it below \<open>2 ^ 53\<close>, and a significand rounded up to \<open>2 ^ 53\<close> is
  renormalised.
\<close>

definition round64 :: "int \<Rightarrow> int \<Rightarrow> int \<Rightarrow> double" where
  "round64 num den ex =
    (if num = 0 then Double 0 0
     else
       let n = \<bar>num\<bar>;
           s = bit_length n - bit_length den - 53;
           a = (if s < 0 then n * 2 ^ nat (- s) else n);
           b = (if s < 0 then den else den * 2 ^ nat s);
           over = (2 ^ 53 * b \<le> a);
           b1 = (if over then 2 * b else b);
           s1 = (if over then s + 1 else s);
           m = round_half_even a b1;
           carry = (m = 2 ^ 53)
       in Double (sgn num * (if carry then 2 ^ 52 else m)) (ex + (if carry then s1 + 1 else s1)))"

text \<open>The conversion of an \<open>int\<close> operand, and the three operations of the formula.\<close>

definition double_of_int :: "c_int \<Rightarrow> double" where
  "double_of_int n = round64 (sint n) 1 0"

definition double_mul :: "double \<Rightarrow> double \<Rightarrow> double" where
  "double_mul x y = round64 (significand x * significand y) 1 (exponent x + exponent y)"

definition double_add :: "double \<Rightarrow> double \<Rightarrow> double" where
  "double_add x y =
    (let e = min (exponent x) (exponent y)
     in round64 (significand x * 2 ^ nat (exponent x - e)
                 + significand y * 2 ^ nat (exponent y - e)) 1 e)"

definition double_sub :: "double \<Rightarrow> double \<Rightarrow> double" where
  "double_sub x y =
    (let e = min (exponent x) (exponent y)
     in round64 (significand x * 2 ^ nat (exponent x - e)
                 - significand y * 2 ^ nat (exponent y - e)) 1 e)"

section \<open>Memoria\_Virtual\_PAG.c: three-level decomposition and access time\<close>

record VirtualAddress =
  offset :: c_uint
  lvl3_index :: c_uint
  lvl2_index :: c_uint
  lvl1_index :: c_uint

definition decompose_address :: "c_uint \<Rightarrow> VirtualAddress" where
  "decompose_address virtual_address =
    \<lparr>offset = virtual_address AND (push_bit 12 1 - 1),
     lvl3_index = drop_bit 12 virtual_address AND 0xFF,
     lvl2_index = drop_bit 20 virtual_address AND 0xFF,
     lvl1_index = drop_bit 28 virtual_address AND 0xF\<rparr>"

text \<open>
  The macros of lines 18 to 20; the literal \<open>0.9\<close> is the binary64 number nearest to
  \<open>9 / 10\<close>.
\<close>

definition TLB_HIT_TIME :: c_int where
  "TLB_HIT_TIME = 8"

definition MEMORY_ACCESS_TIME :: c_int where
  "MEMORY_ACCESS_TIME = 70"

definition TLB_HIT_RATE :: double where
  "TLB_HIT_RATE = round64 9 10 0"

text \<open>
  \<open>calculate_memory_access_time\<close> (lines 72 to 84). The \<open>int\<close> operands \<open>TLB_HIT_TIME\<close>,
  \<open>1\<close> and \<open>3 * MEMORY_ACCESS_TIME\<close> are converted to \<open>double\<close>; the sum associates to the
  left.
\<close>

definition calculate_memory_access_time :: double where
  "calculate_memory_access_time =
    (let tlb_access_time = double_mul TLB_HIT_RATE (double_of_int TLB_HIT_TIME);
         page_table_access_time =
           double_mul (double_sub (double_of_int 1) TLB_HIT_RATE)
             (double_of_int (3 * MEMORY_ACCESS_TIME));
         memory_access_time = double_of_int MEMORY_ACCESS_TIME
     in double_add (double_add tlb_access_time page_table_access_time) memory_access_time)"

text \<open>
  The lines of \<open>main\<close> of Memoria\_Virtual\_PAG.c (lines 97 to 112); \<open>MemAccessTime t\<close> is
  the line that shows the access time \<open>t\<close>.
\<close>

datatype mem_line =
    MemPrompt
  | MemHeader
  | MemLevel1 c_uint
  | MemLevel2 c_uint
  | MemLevel3 c_uint
  | MemOffset c_uint
  | MemAccessTime double

definition main_Memoria_Virtual_PAG :: "c_uint \<Rightarrow> mem_line list \<times> c_int" where
  "main_Memoria_Virtual_PAG virtual_address =
    (let addr = decompose_address virtual_address;
         access_time = calculate_memory_access_time
     in ([MemPrompt, MemHeader, MemLevel1 (lvl1_index addr), MemLevel2 (lvl2_index addr),
          MemLevel3 (lvl3_index addr), MemOffset (offset addr), MemAccessTime access_time], 0))"

section \<open>Masks and small words\<close>

lemma mask12: "(0xFFF :: 'a::len word) = mask 12"
  by (simp add: mask_eq_exp_minus_1)

lemma mask8: "(0xFF :: 'a::len word) = mask 8"
  by (simp add: mask_eq_exp_minus_1)

lemma mask4: "(0xF :: 'a::len word) = mask 4"
  by (simp add: mask_eq_exp_minus_1)

lemma mask20: "(0xFFFFF :: 'a::len word) = mask 20"
  by (simp add: mask_eq_exp_minus_1)

lemma mask32: "(0xFFFFFFFF :: 'a::len word) = mask 32"
  by (simp add: mask_eq_exp_minus_1)

lemma and_le_unat: "unat (w AND m) \<le> unat m"
  by (rule word_and_le1 [THEN word_le_nat_alt [THEN iffD1]])

lemma sint_small:
  fixes w :: "32 word"
  assumes "unat w < 2 ^ 31"
  shows "sint w = int (unat w)"
proof -
  have "int (unat w) < int (2 ^ 31)"
    using assms by (simp only: of_nat_less_iff)
  then have "uint w < 2 ^ 31" by simp
  moreover have "- (2 ^ 31) \<le> uint w"
    by (rule order_trans [of _ 0]) simp_all
  ultimately have "signed_take_bit 31 (uint w) = uint w"
    by (rule signed_take_bit_int_eq_self [rotated])
  then show ?thesis by (simp add: sint_uint)
qed

lemma scast_small:
  fixes w :: "32 word"
  assumes "unat w < 2 ^ 31"
  shows "unat (scast w :: 64 word) = unat w"
proof -
  have "(scast w :: 64 word) = ucast w"
    by (simp add: scast_eq sint_small [OF assms])
  moreover have "unat (ucast w :: 64 word) = unat w"
    by (simp add: unsigned_ucast_eq take_bit_nat_eq_self unsigned_less [of w, THEN less_trans])
  ultimately show ?thesis by simp
qed

lemma sint_bounded:
  fixes w :: "32 word"
  assumes "unat w \<le> n" and "n < 2 ^ 31"
  shows "0 \<le> sint w \<and> sint w \<le> int n"
proof -
  have "unat w < 2 ^ 31"
    using assms by (rule le_less_trans)
  then have "sint w = int (unat w)"
    by (rule sint_small)
  moreover have "int (unat w) \<le> int n"
    using assms(1) by (simp only: of_nat_le_iff)
  ultimately show ?thesis
    by (simp only: of_nat_0_le_iff simp_thms)
qed

section \<open>The 32-bit decomposition\<close>

lemma gpa_offset_mask: "gpa_offset va = va AND 0xFFF"
  by (simp add: gpa_offset_def PAGE_SIZE_def)

lemma gpa_offset_le: "unat (gpa_offset va) \<le> 4095"
  unfolding gpa_offset_mask using and_le_unat [of va "0xFFF"] by simp

lemma gpa_page_number_le: "unat (gpa_page_number va) \<le> 255"
  unfolding gpa_page_number_def using and_le_unat [of "drop_bit 12 va" "0xFF"] by simp

lemma gpa_page_number_sint: "sint (gpa_page_number va) = int (unat (gpa_page_number va))"
  using gpa_page_number_le [of va] by (simp add: sint_small)

lemma gpa_offset_sint: "sint (gpa_offset va) = int (unat (gpa_offset va))"
  using gpa_offset_le [of va] by (simp add: sint_small)

text \<open>
  C6. For every 32-bit input, the page number computed by \<open>get_physical_address\<close> is
  \<open>(v >> 12) & 0xFF\<close> and the offset is \<open>v & 0xFFF\<close>; read as the C \<open>int\<close>s they are
  stored in, the page number lies in 0..255 and the offset in 0..4095.
\<close>

theorem decompose32_fields:
  "gpa_page_number v = drop_bit 12 v AND 0xFF
   \<and> 0 \<le> sint (gpa_page_number v) \<and> sint (gpa_page_number v) \<le> 255
   \<and> gpa_offset v = v AND 0xFFF
   \<and> 0 \<le> sint (gpa_offset v) \<and> sint (gpa_offset v) \<le> 4095"
proof -
  have "gpa_page_number v = drop_bit 12 v AND 0xFF"
    by (simp add: gpa_page_number_def)
  moreover have "0 \<le> sint (gpa_page_number v) \<and> sint (gpa_page_number v) \<le> 255"
    using sint_bounded [OF gpa_page_number_le [of v]] by simp
  moreover have "0 \<le> sint (gpa_offset v) \<and> sint (gpa_offset v) \<le> 4095"
    using sint_bounded [OF gpa_offset_le [of v]] by simp
  ultimately show ?thesis
    by (simp only: gpa_offset_mask simp_thms)
qed

section \<open>The three-level decomposition\<close>

lemma decompose_address_fields:
  "decompose_address va =
    \<lparr>offset = va AND 0xFFF, lvl3_index = drop_bit 12 va AND 0xFF,
     lvl2_index = drop_bit 20 va AND 0xFF, lvl1_index = drop_bit 28 va AND 0xF\<rparr>"
  by (simp add: decompose_address_def)

lemma decompose_address_unat:
  "unat (offset (decompose_address va)) = unat va mod 4096"
  "unat (lvl3_index (decompose_address va)) = unat va div 2 ^ 12 mod 256"
  "unat (lvl2_index (decompose_address va)) = unat va div 2 ^ 20 mod 256"
  "unat (lvl1_index (decompose_address va)) = unat va div 2 ^ 28 mod 16"
  by (simp_all add: decompose_address_fields mask12 mask8 mask4 flip: take_bit_eq_mask)
    (simp_all only: unsigned_take_bit_eq unat_drop_bit_eq take_bit_eq_mod drop_bit_eq_div,
      simp_all add: unat_div unat_mod)

text \<open>
  C4. For every unsigned integer input, \<open>decompose_address\<close> returns exactly the four
  fields \<open>offset = input & 0xFFF\<close>, \<open>lvl3_index = (input >> 12) & 0xFF\<close>,
  \<open>lvl2_index = (input >> 20) & 0xFF\<close> and \<open>lvl1_index = (input >> 28) & 0xF\<close>; it is a
  total function without an error result. Read as numbers, the fields are the digits of
  the input in the mixed radix 4096, 256, 256, 16.
\<close>

theorem decompose_address_total:
  "decompose_address v =
     \<lparr>offset = v AND 0xFFF, lvl3_index = drop_bit 12 v AND 0xFF,
      lvl2_index = drop_bit 20 v AND 0xFF, lvl1_index = drop_bit 28 v AND 0xF\<rparr>
   \<and> unat (offset (decompose_address v)) = unat v mod 2 ^ 12
   \<and> unat (lvl3_index (decompose_address v)) = unat v div 2 ^ 12 mod 2 ^ 8
   \<and> unat (lvl2_index (decompose_address v)) = unat v div 2 ^ 20 mod 2 ^ 8
   \<and> unat (lvl1_index (decompose_address v)) = unat v div 2 ^ 28 mod 2 ^ 4"
  using decompose_address_fields [of v] decompose_address_unat [of v] by simp

lemma fields_or36:
  fixes v :: "36 word"
  shows "ucast (ucast v AND mask 12 :: 32 word)
      OR push_bit 12 (ucast (drop_bit 12 (ucast v) AND mask 8 :: 32 word))
      OR push_bit 20 (ucast (drop_bit 20 (ucast v) AND mask 8 :: 32 word))
      OR push_bit 28 (ucast (drop_bit 28 (ucast v) AND mask 4 :: 32 word)) = v AND mask 32"
    (is "?lhs = ?rhs")
proof (rule bit_word_eqI)
  fix n
  assume "n < LENGTH(36)"
  then have n: "n < 36" by simp
  consider "n < 12" | "12 \<le> n" "n < 20" | "20 \<le> n" "n < 28" | "28 \<le> n" "n < 32" | "32 \<le> n"
    by linarith
  then show "bit ?lhs n = bit ?rhs n"
    using n by cases (auto simp add: bit_simps)
qed

text \<open>
  C5. A 36-bit value \<open>v\<close> passed to \<open>decompose_address\<close> is converted to the
  \<open>unsigned int\<close> parameter (\<open>ucast\<close>, the value modulo \<open>2^32\<close>). The fields then satisfy
  offset in 0..4095, lvl3\_index and lvl2\_index in 0..255, lvl1\_index in 0..15, and
  \<open>offset | (lvl3_index << 12) | (lvl2_index << 20) | (lvl1_index << 28)\<close>, computed
  in 36 bits, is \<open>v & 0xFFFFFFFF\<close>: the bits above bit 31 are dropped.
\<close>

theorem decompose_address_36:
  fixes v :: "36 word"
  shows "unat (offset (decompose_address (ucast v))) \<le> 4095
   \<and> unat (lvl3_index (decompose_address (ucast v))) \<le> 255
   \<and> unat (lvl2_index (decompose_address (ucast v))) \<le> 255
   \<and> unat (lvl1_index (decompose_address (ucast v))) \<le> 15
   \<and> (ucast (offset (decompose_address (ucast v)))
        OR push_bit 12 (ucast (lvl3_index (decompose_address (ucast v))))
        OR push_bit 20 (ucast (lvl2_index (decompose_address (ucast v))))
        OR push_bit 28 (ucast (lvl1_index (decompose_address (ucast v)))) :: 36 word)
       = v AND 0xFFFFFFFF"
proof -
  let ?a = "decompose_address (ucast v)"
  have "unat (offset ?a) \<le> 4095"
    using and_le_unat [of "ucast v :: 32 word" "0xFFF"] by (simp add: decompose_address_fields)
  moreover have "unat (lvl3_index ?a) \<le> 255"
    using and_le_unat [of "drop_bit 12 (ucast v) :: 32 word" "0xFF"] by (simp add: decompose_address_fields)
  moreover have "unat (lvl2_index ?a) \<le> 255"
    using and_le_unat [of "drop_bit 20 (ucast v) :: 32 word" "0xFF"] by (simp add: decompose_address_fields)
  moreover have "unat (lvl1_index ?a) \<le> 15"
    using and_le_unat [of "drop_bit 28 (ucast v) :: 32 word" "0xF"] by (simp add: decompose_address_fields)
  moreover have "(ucast (offset ?a) OR push_bit 12 (ucast (lvl3_index ?a))
        OR push_bit 20 (ucast (lvl2_index ?a)) OR push_bit 28 (ucast (lvl1_index ?a)) :: 36 word)
       = v AND 0xFFFFFFFF"
    by (simp only: decompose_address_fields VirtualAddress.select_convs mask12 mask8 mask4 mask32
        fields_or36)
  ultimately show ?thesis by (simp only: simp_thms)
qed

section \<open>Page table lookup\<close>

lemma length_page_table: "length page_table = 8"
  by (simp add: page_table_def)

lemma gpa_guard:
  "((scast (gpa_page_number va) :: size_t) \<ge> of_nat (length page_table))
    = (length page_table \<le> unat (gpa_page_number va))"
proof -
  have "unat (scast (gpa_page_number va) :: size_t) = unat (gpa_page_number va)"
    using gpa_page_number_le [of va] by (simp add: scast_small)
  then show ?thesis
    by (simp add: word_le_nat_alt length_page_table)
qed

lemma gpa_index: "nat (sint (gpa_page_number va)) = unat (gpa_page_number va)"
  using gpa_page_number_le [of va] by (simp add: sint_small)

lemma get_physical_address_cases:
  "get_physical_address va =
    (if length page_table \<le> unat (gpa_page_number va) then ([MsgOutOfBounds], - 1)
     else if presence_bit (page_table ! unat (gpa_page_number va)) = 0 then ([MsgInSwap], - 1)
     else ([], page_frame (page_table ! unat (gpa_page_number va)) * PAGE_SIZE + gpa_offset va))"
  unfolding get_physical_address_def Let_def gpa_guard gpa_index by simp

lemma page_frame_le:
  assumes "n < length page_table"
  shows "unat (page_frame (page_table ! n)) \<le> 25"
proof -
  have "n \<in> {0, 1, 2, 3, 4, 5, 6, 7}"
    using assms by (auto simp add: length_page_table)
  then show ?thesis
    by (auto simp add: page_table_def)
qed

lemma resident_frame_le:
  assumes "n < length page_table" and "presence_bit (page_table ! n) \<noteq> 0"
  shows "unat (page_frame (page_table ! n)) \<le> 14"
proof -
  have "n \<in> {0, 1, 2, 3, 4, 5, 6, 7}"
    using assms(1) by (auto simp add: length_page_table)
  then show ?thesis
    using assms(2) by (auto simp add: page_table_def)
qed

lemma frame_address_unat:
  fixes f :: "32 word"
  assumes "unat f \<le> 25"
  shows "unat (f * PAGE_SIZE + gpa_offset va) = unat f * 4096 + unat (gpa_offset va)"
proof -
  have P: "unat PAGE_SIZE = 4096"
    by (simp add: PAGE_SIZE_def)
  have "unat f * unat PAGE_SIZE \<le> 25 * 4096"
    unfolding P using assms by simp
  then have "unat f * unat PAGE_SIZE < 2 ^ LENGTH(32)"
    by simp
  then have m: "unat (f * PAGE_SIZE) = unat f * 4096"
    using P by (simp only: unat_mult_lem [THEN iffD1])
  have "unat (f * PAGE_SIZE) + unat (gpa_offset va) \<le> 25 * 4096 + 4095"
    unfolding m using assms gpa_offset_le [of va] by simp
  then have "unat (f * PAGE_SIZE) + unat (gpa_offset va) < 2 ^ LENGTH(32)"
    by simp
  then show ?thesis
    using m by (simp only: unat_add_lem [THEN iffD1])
qed

lemma frame_address_sint:
  fixes f :: "32 word"
  assumes "unat f \<le> 25"
  shows "sint (f * PAGE_SIZE + gpa_offset va) = sint f * 4096 + sint (gpa_offset va)"
proof -
  have u: "unat (f * PAGE_SIZE + gpa_offset va) = unat f * 4096 + unat (gpa_offset va)"
    using assms by (rule frame_address_unat)
  have "unat (f * PAGE_SIZE + gpa_offset va) \<le> 25 * 4096 + 4095"
    unfolding u using assms gpa_offset_le [of va] by simp
  then have "unat (f * PAGE_SIZE + gpa_offset va) < 2 ^ 31"
    by simp
  then have "sint (f * PAGE_SIZE + gpa_offset va) = int (unat (f * PAGE_SIZE + gpa_offset va))"
    by (rule sint_small)
  moreover have "sint f = int (unat f)"
    using assms by (intro sint_small) simp
  ultimately show ?thesis
    by (simp only: u gpa_offset_sint of_nat_add of_nat_mult of_nat_numeral)
qed

text \<open>
  C1. For every virtual address whose page number is a valid index into the 8-entry page
  table and whose entry has presence bit 1, \<open>get_physical_address\<close> prints nothing and
  returns \<open>entry.frame * 4096 + (input & 0xFFF)\<close>, a non-negative \<open>int\<close>; for page 0
  and offset \<open>0x123\<close> it returns \<open>0x123\<close>.
\<close>

theorem get_physical_address_resident:
  "(unat (gpa_page_number va) < length page_table
      \<and> presence_bit (page_table ! unat (gpa_page_number va)) = 1
    \<longrightarrow> fst (get_physical_address va) = []
      \<and> sint (snd (get_physical_address va))
          = sint (page_frame (page_table ! unat (gpa_page_number va))) * 4096 + uint (va AND 0xFFF)
      \<and> 0 \<le> sint (snd (get_physical_address va)))
   \<and> get_physical_address 0x123 = ([], 0x123)"
proof (intro conjI impI)
  assume a: "unat (gpa_page_number va) < length page_table
      \<and> presence_bit (page_table ! unat (gpa_page_number va)) = 1"
  let ?e = "page_table ! unat (gpa_page_number va)"
  have r: "get_physical_address va = ([], page_frame ?e * PAGE_SIZE + gpa_offset va)"
    using a by (simp add: get_physical_address_cases)
  have f: "unat (page_frame ?e) \<le> 25"
    using a by (intro page_frame_le) simp
  have s: "sint (page_frame ?e * PAGE_SIZE + gpa_offset va)
      = sint (page_frame ?e) * 4096 + sint (gpa_offset va)"
    using f by (rule frame_address_sint)
  have "sint (gpa_offset va) = uint (gpa_offset va)"
    by (simp add: gpa_offset_sint)
  then have o: "sint (gpa_offset va) = uint (va AND 0xFFF)"
    by (simp only: gpa_offset_mask)
  show "fst (get_physical_address va) = []"
    by (simp add: r)
  show "sint (snd (get_physical_address va)) = sint (page_frame ?e) * 4096 + uint (va AND 0xFFF)"
    by (simp only: r snd_conv s o)
  have "0 \<le> sint (page_frame ?e)"
    using sint_bounded [OF f] by simp
  moreover have "0 \<le> sint (gpa_offset va)"
    using sint_bounded [OF gpa_offset_le [of va]] by simp
  ultimately show "0 \<le> sint (snd (get_physical_address va))"
    by (simp only: r snd_conv s)
next
  show "get_physical_address 0x123 = ([], 0x123)"
    by (simp add: get_physical_address_cases gpa_page_number_def gpa_offset_mask page_table_def
        PAGE_SIZE_def)
qed

theorem get_physical_address_resident_witness:
  "unat (gpa_page_number 0x2ABC) < length page_table
   \<and> presence_bit (page_table ! unat (gpa_page_number 0x2ABC)) = 1
   \<and> fst (get_physical_address 0x2ABC) = []
   \<and> sint (snd (get_physical_address 0x2ABC)) = 9 * 4096 + 0xABC
   \<and> get_physical_address 0x2ABC = ([], 0x9ABC)"
proof -
  have p: "gpa_page_number 0x2ABC = 2"
    by (simp add: gpa_page_number_def)
  have h: "unat (gpa_page_number 0x2ABC) < length page_table
      \<and> presence_bit (page_table ! unat (gpa_page_number 0x2ABC)) = 1"
    by (simp add: p page_table_def)
  have e: "get_physical_address 0x2ABC = ([], 0x9ABC)"
    by (simp add: get_physical_address_cases p gpa_offset_mask page_table_def PAGE_SIZE_def)
  show ?thesis
    using h e get_physical_address_resident [of "0x2ABC"]
    by (simp add: p page_table_def)
qed

text \<open>
  C2. For every virtual address whose page number is in bounds and whose entry has
  presence bit 0, \<open>get_physical_address\<close> reports that the page is in swap and returns
  the sentinel \<open>-1\<close> instead of an address; page 1 is such a page, whatever the other
  bits of the input are.
\<close>

theorem get_physical_address_swapped:
  "(unat (gpa_page_number va) < length page_table
      \<and> presence_bit (page_table ! unat (gpa_page_number va)) = 0
    \<longrightarrow> get_physical_address va = ([MsgInSwap], - 1))
   \<and> (gpa_page_number va = 1 \<longrightarrow> get_physical_address va = ([MsgInSwap], - 1))"
  by (simp add: get_physical_address_cases) (simp add: page_table_def)

theorem get_physical_address_swapped_witness:
  "unat (gpa_page_number 0x1ABC) < length page_table
   \<and> presence_bit (page_table ! unat (gpa_page_number 0x1ABC)) = 0
   \<and> gpa_page_number 0x1ABC = 1
   \<and> get_physical_address 0x1ABC = ([MsgInSwap], - 1)"
proof -
  have p: "gpa_page_number 0x1ABC = 1"
    by (simp add: gpa_page_number_def)
  show ?thesis
    using get_physical_address_swapped [of "0x1ABC"]
    by (simp add: p page_table_def)
qed

text \<open>
  C3. The table has 8 entries, and for every page number greater than or equal to that
  length \<open>get_physical_address\<close> reports the page number as out of bounds and returns
  the sentinel \<open>-1\<close> instead of an address; page number 8 is the first such page.
\<close>

theorem get_physical_address_out_of_range:
  "length page_table = 8
   \<and> (length page_table \<le> unat (gpa_page_number va)
        \<longrightarrow> get_physical_address va = ([MsgOutOfBounds], - 1))
   \<and> (gpa_page_number va = 8 \<longrightarrow> get_physical_address va = ([MsgOutOfBounds], - 1))"
  by (simp add: get_physical_address_cases length_page_table)

theorem get_physical_address_out_of_range_witness:
  "length page_table \<le> unat (gpa_page_number 0x8123)
   \<and> gpa_page_number 0x8123 = 8
   \<and> get_physical_address 0x8123 = ([MsgOutOfBounds], - 1)"
proof -
  have p: "gpa_page_number 0x8123 = 8"
    by (simp add: gpa_page_number_def)
  show ?thesis
    using get_physical_address_out_of_range [of "0x8123"]
    by (simp add: p)
qed

section \<open>Bits the lookup reads\<close>

lemma gpa_page_number_low20: "gpa_page_number (va AND 0xFFFFF) = gpa_page_number va"
  unfolding gpa_page_number_def mask8 mask20
proof (rule bit_word_eqI)
  fix n
  assume "n < LENGTH(32)"
  then show "bit (drop_bit 12 (va AND mask 20) AND mask 8) n = bit (drop_bit 12 va AND mask 8) n"
    by (auto simp add: bit_simps)
qed

lemma gpa_offset_low20: "gpa_offset (va AND 0xFFFFF) = gpa_offset va"
  unfolding gpa_offset_mask mask12 mask20
proof (rule bit_word_eqI)
  fix n
  assume "n < LENGTH(32)"
  then show "bit ((va AND mask 20) AND mask 12) n = bit (va AND mask 12) n"
    by (auto simp add: bit_simps)
qed

lemma get_physical_address_low20:
  "get_physical_address (va AND 0xFFFFF) = get_physical_address va"
  by (simp only: get_physical_address_def gpa_page_number_low20 gpa_offset_low20)

text \<open>
  C9. \<open>get_physical_address\<close> depends only on the low 20 bits of its input: two
  virtual addresses that agree on bits 0 to 19 give the same printed lines and the same
  result, since bits 20 to 31 are never read.
\<close>

theorem get_physical_address_low_bits:
  assumes "va AND 0xFFFFF = vb AND 0xFFFFF"
  shows "get_physical_address va = get_physical_address vb"
proof -
  have "get_physical_address va = get_physical_address (va AND 0xFFFFF)"
    by (rule get_physical_address_low20 [symmetric])
  also have "\<dots> = get_physical_address (vb AND 0xFFFFF)"
    by (simp only: assms)
  also have "\<dots> = get_physical_address vb"
    by (rule get_physical_address_low20)
  finally show ?thesis .
qed

theorem get_physical_address_low_bits_witness:
  "(0x00002123 :: uint32_t) AND 0xFFFFF = 0xABC02123 AND 0xFFFFF
   \<and> (0x00002123 :: uint32_t) \<noteq> 0xABC02123
   \<and> get_physical_address 0x00002123 = get_physical_address 0xABC02123
   \<and> get_physical_address 0xABC02123 = ([], 0x9123)"
proof -
  have h: "(0x00002123 :: uint32_t) AND 0xFFFFF = 0xABC02123 AND 0xFFFFF"
    by simp
  have e: "get_physical_address 0x00002123 = ([], 0x9123)"
    by (simp add: get_physical_address_cases gpa_page_number_def gpa_offset_mask page_table_def
        PAGE_SIZE_def)
  show ?thesis
    using h e get_physical_address_low_bits [OF h] by simp
qed

section \<open>Range of a successful translation\<close>

text \<open>
  C10. Whenever \<open>get_physical_address\<close> succeeds (it prints no failure line), the
  returned address lies between 0 and \<open>14 * 4096 + 4095\<close>, 14 being the largest frame
  of a resident page; so it is below \<open>2 ^ PHYSICAL_ADDRESS_BITS\<close> and is never the
  failure sentinel \<open>-1\<close>.
\<close>

theorem get_physical_address_success_range:
  assumes "fst (get_physical_address va) = []"
  shows "0 \<le> sint (snd (get_physical_address va))
    \<and> sint (snd (get_physical_address va)) \<le> 14 * 4096 + 4095
    \<and> sint (snd (get_physical_address va)) < 2 ^ PHYSICAL_ADDRESS_BITS
    \<and> snd (get_physical_address va) \<noteq> - 1"
proof -
  let ?n = "unat (gpa_page_number va)"
  let ?e = "page_table ! ?n"
  have n: "?n < length page_table"
    using assms by (simp add: get_physical_address_cases split: if_splits)
  have p: "presence_bit ?e \<noteq> 0"
    using assms by (simp add: get_physical_address_cases split: if_splits)
  have r: "snd (get_physical_address va) = page_frame ?e * PAGE_SIZE + gpa_offset va"
    using n p by (simp add: get_physical_address_cases)
  have f: "unat (page_frame ?e) \<le> 14"
    using n p by (rule resident_frame_le)
  then have f25: "unat (page_frame ?e) \<le> 25"
    by simp
  have s: "sint (snd (get_physical_address va)) = sint (page_frame ?e) * 4096 + sint (gpa_offset va)"
    unfolding r using f25 by (rule frame_address_sint)
  have bf: "0 \<le> sint (page_frame ?e) \<and> sint (page_frame ?e) \<le> 14"
    using sint_bounded [OF f] by simp
  have bo: "0 \<le> sint (gpa_offset va) \<and> sint (gpa_offset va) \<le> 4095"
    using sint_bounded [OF gpa_offset_le [of va]] by simp
  have lo: "0 \<le> sint (snd (get_physical_address va))"
    unfolding s using bf bo by simp
  have hi: "sint (snd (get_physical_address va)) \<le> 14 * 4096 + 4095"
    unfolding s using bf bo by simp
  have "sint (snd (get_physical_address va)) < 2 ^ PHYSICAL_ADDRESS_BITS"
    using hi by (simp add: PHYSICAL_ADDRESS_BITS_def)
  moreover have "snd (get_physical_address va) \<noteq> - 1"
  proof
    assume "snd (get_physical_address va) = - 1"
    then have "sint (snd (get_physical_address va)) = - 1"
      by simp
    then show False using lo by simp
  qed
  ultimately show ?thesis
    using lo hi by simp
qed

theorem get_physical_address_success_range_witness:
  "fst (get_physical_address 0x3FFF) = []
   \<and> snd (get_physical_address 0x3FFF) = 0xEFFF
   \<and> sint (snd (get_physical_address 0x3FFF)) = 14 * 4096 + 4095
   \<and> sint (snd (get_physical_address 0x3FFF)) < 2 ^ PHYSICAL_ADDRESS_BITS
   \<and> snd (get_physical_address 0x3FFF) \<noteq> - 1"
proof -
  have e: "get_physical_address 0x3FFF = ([], 0xEFFF)"
    by (simp add: get_physical_address_cases gpa_page_number_def gpa_offset_mask page_table_def
        PAGE_SIZE_def)
  then have h: "fst (get_physical_address 0x3FFF) = []"
    by simp
  show ?thesis
    using e get_physical_address_success_range [OF h] by simp
qed

section \<open>Exit codes\<close>

text \<open>
  C8. Whatever value \<open>scanf\<close> leaves in \<open>virtual_address\<close>, \<open>main\<close> of each program
  returns 0. That includes the failure paths of Pag\_Virtual.c: for a page in swap
  (\<open>0x1ABC\<close>) and for a page number out of bounds (\<open>0x8123\<close>) the message is printed,
  no physical address line follows, and the exit code is still 0.
\<close>

theorem main_exit_code:
  "snd (main_Pag_Virtual va) = 0
   \<and> snd (main_Memoria_Virtual_PAG va) = 0
   \<and> main_Pag_Virtual 0x1ABC
       = ([MsgFormat, MsgFormatPage, MsgFormatOffset, MsgPrompt, MsgInSwap,
           MsgVirtualSize 0x100000000], 0)
   \<and> main_Pag_Virtual 0x8123
       = ([MsgFormat, MsgFormatPage, MsgFormatOffset, MsgPrompt, MsgOutOfBounds,
           MsgVirtualSize 0x100000000], 0)"
proof -
  have "snd (main_Pag_Virtual va) = 0"
    by (simp add: main_Pag_Virtual_def split_def Let_def)
  moreover have "snd (main_Memoria_Virtual_PAG va) = 0"
    by (simp add: main_Memoria_Virtual_PAG_def Let_def)
  moreover have "get_physical_address 0x1ABC = ([MsgInSwap], - 1)"
    by (simp add: get_physical_address_cases gpa_page_number_def page_table_def)
  moreover have "get_physical_address 0x8123 = ([MsgOutOfBounds], - 1)"
    by (simp add: get_physical_address_cases gpa_page_number_def page_table_def)
  ultimately show ?thesis
    by (simp add: main_Pag_Virtual_def VIRTUAL_ADDRESS_BITS_def)
qed

section \<open>Rounding to binary64\<close>

lemma round_half_even_nearest:
  assumes "0 < b"
  shows "2 * \<bar>round_half_even a b * b - a\<bar> \<le> b"
proof -
  have d: "a = a div b * b + a mod b"
    by simp
  have r: "0 \<le> a mod b" "a mod b < b"
    using assms by simp_all
  have q1: "(a div b + 1) * b - a = b - a mod b"
    using d by (simp add: algebra_simps)
  have q0: "a div b * b - a = - (a mod b)"
    using d by (simp add: algebra_simps)
  show ?thesis
    unfolding round_half_even_def Let_def
    using r by (simp add: q0 q1)
qed

lemma bit_length_pos:
  assumes "0 < n"
  shows "2 ^ nat (bit_length n - 1) \<le> n \<and> n < 2 ^ nat (bit_length n) \<and> 1 \<le> bit_length n"
  using assms
proof (induction n rule: bit_length.induct)
  case (1 n)
  show ?case
  proof (cases "n = 1")
    case True
    then show ?thesis
      by (simp add: bit_length.simps [of 1] bit_length.simps [of 0])
  next
    case False
    with 1(2) have h: "0 < n div 2" by simp
    have ih: "2 ^ nat (bit_length (n div 2) - 1) \<le> n div 2
        \<and> n div 2 < 2 ^ nat (bit_length (n div 2)) \<and> 1 \<le> bit_length (n div 2)"
      using 1(1) 1(2) h by simp
    have b: "bit_length n = 1 + bit_length (n div 2)"
      using 1(2) by (simp add: bit_length.simps [of n])
    have k: "1 \<le> bit_length (n div 2)"
      using ih by simp
    have e1: "nat (bit_length n - 1) = Suc (nat (bit_length (n div 2) - 1))"
      unfolding b using k by arith
    have e2: "nat (bit_length n) = Suc (nat (bit_length (n div 2)))"
      unfolding b using k by arith
    have lo: "2 * 2 ^ nat (bit_length (n div 2) - 1) \<le> n"
      using ih by linarith
    have hi: "n < 2 * 2 ^ nat (bit_length (n div 2))"
      using ih by linarith
    show ?thesis
      unfolding e1 e2 power_Suc using lo hi k b by simp
  qed
qed

lemma double_value_powi: "double_value (Double m e) = of_int m * 2 powi e"
proof (cases "0 \<le> e")
  case True
  then show ?thesis
    by (simp add: double_value_def power_int_def)
next
  case False
  then show ?thesis
    by (simp add: double_value_def power_int_def field_simps)
qed

lemma bit_length_powi:
  assumes "0 < n"
  shows "2 powi (bit_length n - 1) \<le> real_of_int n" and "real_of_int n < 2 powi bit_length n"
proof -
  from bit_length_pos [OF assms]
  have lo: "2 ^ nat (bit_length n - 1) \<le> n" and hi: "n < 2 ^ nat (bit_length n)"
    and k: "1 \<le> bit_length n"
    by simp_all
  have "real_of_int (2 ^ nat (bit_length n - 1)) \<le> real_of_int n"
    using lo by (simp only: of_int_le_iff)
  then show "2 powi (bit_length n - 1) \<le> real_of_int n"
    using k by (simp add: power_int_def)
  have "real_of_int n < real_of_int (2 ^ nat (bit_length n))"
    using hi by (simp only: of_int_less_iff)
  then show "real_of_int n < 2 powi bit_length n"
    using k by (simp add: power_int_def)
qed

lemma round64_nearest:
  assumes num: "0 < num" and den: "0 < den"
  shows "2 ^ 52 \<le> significand (round64 num den ex)
    \<and> significand (round64 num den ex) < 2 ^ 53
    \<and> 2 * \<bar>double_value (round64 num den ex) - of_int num / of_int den * 2 powi ex\<bar>
        \<le> 2 powi exponent (round64 num den ex)"
proof -
  define x :: real where "x = of_int num / of_int den"
  define s where "s = bit_length num - bit_length den - 53"
  define a where "a = (if s < 0 then num * 2 ^ nat (- s) else num)"
  define b where "b = (if s < 0 then den else den * 2 ^ nat s)"
  define b1 where "b1 = (if 2 ^ 53 * b \<le> a then 2 * b else b)"
  define s1 where "s1 = (if 2 ^ 53 * b \<le> a then s + 1 else s)"
  define m where "m = round_half_even a b1"
  define y :: real where "y = of_int a / of_int b"
  define y1 :: real where "y1 = of_int a / of_int b1"
  have r: "round64 num den ex
      = Double (if m = 2 ^ 53 then 2 ^ 52 else m) (ex + (if m = 2 ^ 53 then s1 + 1 else s1))"
    using num by (simp add: round64_def Let_def s_def a_def b_def b1_def s1_def m_def)
  have bpos: "0 < b"
    using den by (simp add: b_def)
  have b1pos: "0 < b1"
    using bpos by (simp add: b1_def)
  have xpos: "0 < x"
    using num den by (simp add: x_def)
  have y: "y = x * 2 powi (- s)"
  proof (cases "s < 0")
    case True
    then show ?thesis
      by (simp add: y_def x_def a_def b_def power_int_def)
  next
    case False
    then show ?thesis
      by (simp add: y_def x_def a_def b_def power_int_def field_simps)
  qed
  have xlo: "2 powi (bit_length num - 1 - bit_length den) < x"
  proof -
    have "2 powi (bit_length num - 1 - bit_length den) * real_of_int den
        < 2 powi (bit_length num - 1 - bit_length den) * 2 powi bit_length den"
      using bit_length_powi(2) [OF den] by simp
    also have "\<dots> = 2 powi (bit_length num - 1)"
      by (simp flip: power_int_add)
    also have "\<dots> \<le> real_of_int num"
      using bit_length_powi(1) [OF num] .
    finally show ?thesis
      using den by (simp add: x_def field_simps)
  qed
  have xhi: "x < 2 powi (bit_length num - bit_length den + 1)"
  proof -
    have "real_of_int num < 2 powi bit_length num"
      using bit_length_powi(2) [OF num] .
    also have "\<dots> = 2 powi (bit_length num - bit_length den + 1) * 2 powi (bit_length den - 1)"
      by (simp flip: power_int_add)
    also have "\<dots> \<le> 2 powi (bit_length num - bit_length den + 1) * real_of_int den"
      using bit_length_powi(1) [OF den] by simp
    finally show ?thesis
      using den by (simp add: x_def field_simps)
  qed
  have ylo: "2 ^ 52 < y"
  proof -
    have "2 powi (bit_length num - 1 - bit_length den) * 2 powi (- s) < x * 2 powi (- s)"
      using xlo by simp
    moreover have "2 powi (bit_length num - 1 - bit_length den) * 2 powi (- s) = (2 powi 52 :: real)"
      by (simp add: s_def flip: power_int_add)
    ultimately show ?thesis
      by (simp add: y)
  qed
  have yhi: "y < 2 ^ 54"
  proof -
    have "x * 2 powi (- s) < 2 powi (bit_length num - bit_length den + 1) * 2 powi (- s)"
      using xhi by simp
    moreover have "2 powi (bit_length num - bit_length den + 1) * 2 powi (- s) = (2 powi 54 :: real)"
      by (simp add: s_def flip: power_int_add)
    ultimately show ?thesis
      by (simp add: y)
  qed
  have over: "(2 ^ 53 * b \<le> a) = (2 ^ 53 \<le> y)"
  proof -
    have "(2 ^ 53 * b \<le> a) = (real_of_int (2 ^ 53 * b) \<le> real_of_int a)"
      by (simp only: of_int_le_iff)
    also have "\<dots> = (2 ^ 53 \<le> y)"
      using bpos by (simp add: y_def field_simps)
    finally show ?thesis .
  qed
  have y1: "y1 = x * 2 powi (- s1)" and y1lo: "2 ^ 52 \<le> y1" and y1hi: "y1 < 2 ^ 53"
  proof -
    show "y1 = x * 2 powi (- s1)"
    proof (cases "2 ^ 53 * b \<le> a")
      case True
      then have h1: "y1 = y / 2"
        by (simp add: y1_def y_def b1_def)
      have h2: "(2 powi (- (s + 1)) :: real) = 2 powi (- s) / 2"
        by (simp add: power_int_diff power_int_minus field_simps)
      have "y1 = x * (2 powi (- s) / 2)"
        by (simp add: h1 y)
      also have "\<dots> = x * 2 powi (- (s + 1))"
        by (simp only: h2)
      finally have "y1 = x * 2 powi (- (s + 1))" .
      moreover have "s1 = s + 1"
        using True by (simp add: s1_def)
      ultimately show ?thesis
        by (simp only:)
    next
      case False
      then show ?thesis
        by (simp add: y1_def y_def b1_def s1_def y [symmetric])
    qed
    show "2 ^ 52 \<le> y1"
      using ylo over by (cases "2 ^ 53 * b \<le> a") (simp_all add: y1_def y_def b1_def)
    show "y1 < 2 ^ 53"
      using yhi over by (cases "2 ^ 53 * b \<le> a") (simp_all add: y1_def y_def b1_def)
  qed
  have near: "2 * \<bar>real_of_int m - y1\<bar> \<le> 1"
  proof -
    have "2 * \<bar>m * b1 - a\<bar> \<le> b1"
      unfolding m_def using b1pos by (rule round_half_even_nearest)
    then have "real_of_int (2 * \<bar>m * b1 - a\<bar>) \<le> real_of_int b1"
      by (simp only: of_int_le_iff)
    then have "2 * \<bar>real_of_int m * real_of_int b1 - real_of_int a\<bar> \<le> real_of_int b1"
      by simp
    moreover have "real_of_int m * real_of_int b1 - real_of_int a
        = (real_of_int m - y1) * real_of_int b1"
      using b1pos by (simp add: y1_def field_simps)
    ultimately have "2 * (\<bar>real_of_int m - y1\<bar> * real_of_int b1) \<le> 1 * real_of_int b1"
      using b1pos by (simp add: abs_mult)
    then show ?thesis
      using b1pos by simp
  qed
  have mlo: "2 ^ 52 \<le> m"
  proof -
    have "2 ^ 52 - 1 < real_of_int m"
      using near y1lo by (simp add: abs_if split: if_splits)
    then have "real_of_int (2 ^ 52 - 1) < real_of_int m"
      by simp
    then have "2 ^ 52 - 1 < m"
      by (simp only: of_int_less_iff)
    then show ?thesis by simp
  qed
  have mhi: "m \<le> 2 ^ 53"
  proof -
    have "real_of_int m < 2 ^ 53 + 1"
      using near y1hi by (simp add: abs_if split: if_splits)
    then have "real_of_int m < real_of_int (2 ^ 53 + 1)"
      by simp
    then have "m < 2 ^ 53 + 1"
      by (simp only: of_int_less_iff)
    then show ?thesis by simp
  qed
  have v: "double_value (round64 num den ex) = real_of_int m * 2 powi s1 * 2 powi ex"
  proof (cases "m = 2 ^ 53")
    case True
    have "(2 powi (ex + (s1 + 1)) :: real) = 2 * (2 powi s1 * 2 powi ex)"
      by (simp add: power_int_add)
    then show ?thesis
      using True by (simp add: r double_value_powi)
  next
    case False
    then show ?thesis
      by (simp add: r double_value_powi power_int_add)
  qed
  have exact: "x * 2 powi ex = y1 * 2 powi s1 * 2 powi ex"
    by (simp add: y1 power_int_minus)
  have err: "2 * \<bar>double_value (round64 num den ex) - x * 2 powi ex\<bar> \<le> 2 powi (ex + s1)"
  proof -
    have "double_value (round64 num den ex) - x * 2 powi ex
        = (real_of_int m - y1) * (2 powi s1 * 2 powi ex)"
      by (simp add: v exact algebra_simps)
    then have "2 * \<bar>double_value (round64 num den ex) - x * 2 powi ex\<bar>
        = (2 * \<bar>real_of_int m - y1\<bar>) * (2 powi s1 * 2 powi ex)"
      by (simp add: abs_mult)
    also have "\<dots> \<le> 1 * (2 powi s1 * 2 powi ex)"
      using near by (intro mult_right_mono) simp_all
    finally show ?thesis
      by (simp add: power_int_add mult.commute)
  qed
  have ulp: "(2 powi (ex + s1) :: real) \<le> 2 powi exponent (round64 num den ex)"
    by (simp add: r power_int_increasing)
  show ?thesis
    using mlo mhi err ulp by (simp add: r x_def)
qed

section \<open>Average memory access time\<close>

lemma double_of_int_operands:
  "double_of_int TLB_HIT_TIME = round64 8 1 0"
  "double_of_int 1 = round64 1 1 0"
  "double_of_int (3 * MEMORY_ACCESS_TIME) = round64 210 1 0"
  "double_of_int MEMORY_ACCESS_TIME = round64 70 1 0"
  by (simp_all add: double_of_int_def TLB_HIT_TIME_def MEMORY_ACCESS_TIME_def)

lemma TLB_HIT_RATE_eval: "TLB_HIT_RATE = Double 0x1CCCCCCCCCCCCD (- 53)"
  by code_simp

lemma operands_eval:
  "round64 8 1 0 = Double 0x10000000000000 (- 49)"
  "round64 1 1 0 = Double 0x10000000000000 (- 52)"
  "round64 210 1 0 = Double 0x1A400000000000 (- 45)"
  "round64 70 1 0 = Double 0x11800000000000 (- 46)"
  by code_simp+

lemma tlb_access_time_eval:
  "double_mul (Double 0x1CCCCCCCCCCCCD (- 53)) (Double 0x10000000000000 (- 49))
    = Double 0x1CCCCCCCCCCCCD (- 50)"
  by code_simp

lemma miss_rate_eval:
  "double_sub (Double 0x10000000000000 (- 52)) (Double 0x1CCCCCCCCCCCCD (- 53))
    = Double 0x19999999999998 (- 56)"
  by code_simp

lemma page_table_access_time_eval:
  "double_mul (Double 0x19999999999998 (- 56)) (Double 0x1A400000000000 (- 45))
    = Double 0x14FFFFFFFFFFFF (- 48)"
  by code_simp

lemma partial_sum_eval:
  "double_add (Double 0x1CCCCCCCCCCCCD (- 50)) (Double 0x14FFFFFFFFFFFF (- 48))
    = Double 0x1C333333333332 (- 48)"
  by code_simp

lemma total_eval:
  "double_add (Double 0x1C333333333332 (- 48)) (Double 0x11800000000000 (- 46))
    = Double 0x188CCCCCCCCCCC (- 46)"
  by code_simp

lemma calculate_memory_access_time_eval:
  "calculate_memory_access_time = Double 0x188CCCCCCCCCCC (- 46)"
  by (simp only: calculate_memory_access_time_def Let_def double_of_int_operands operands_eval
      TLB_HIT_RATE_eval tlb_access_time_eval miss_rate_eval page_table_access_time_eval
      partial_sum_eval total_eval)

lemma nearest_98_2: "round64 982 10 0 = Double 0x188CCCCCCCCCCD (- 46)"
  by code_simp

text \<open>
  C7, as stated, fails: the number returned is not 98.2, and it is not the binary64 number
  nearest to 98.2 either (the value of the literal \<open>98.2\<close>).
\<close>

theorem calculate_memory_access_time_not_98_2:
  "double_value calculate_memory_access_time \<noteq> 98.2
   \<and> calculate_memory_access_time \<noteq> round64 982 10 0"
  by (simp add: calculate_memory_access_time_eval nearest_98_2 double_value_def)

text \<open>
  C7, amended. \<open>calculate_memory_access_time\<close> takes no input and always returns the same
  binary64 number, the result of
  \<open>(hit_rate * tlb_time) + ((1 - hit_rate) * (levels * memory_time)) + memory_time\<close> over
  the constants 8, 70, 0.9 and 3 with every operation rounded to binary64. That number is
  \<open>0x188CCCCCCCCCCC * 2 ^ - 46\<close>, encoded \<open>0x40588CCCCCCCCCCC\<close> (about
  98.19999999999999): it lies \<open>4/5 * 2 ^ - 46\<close> below 98.2 and one unit in the last place
  below the binary64 number nearest to 98.2.
\<close>

theorem calculate_memory_access_time_value:
  "calculate_memory_access_time = Double 0x188CCCCCCCCCCC (- 46)
   \<and> normal64 calculate_memory_access_time
   \<and> double_bits calculate_memory_access_time = 0x40588CCCCCCCCCCC
   \<and> 98.2 - double_value calculate_memory_access_time = 4 / 5 * (1 / 2 ^ 46)
   \<and> double_value (round64 982 10 0) - double_value calculate_memory_access_time = 1 / 2 ^ 46"
proof -
  let ?r = "Double 0x188CCCCCCCCCCC (- 46)"
  have "normal64 ?r"
    by (simp add: normal64_def)
  moreover have "double_bits ?r = 0x40588CCCCCCCCCCC"
    by (simp add: double_bits_def)
  moreover have "98.2 - double_value ?r = 4 / 5 * (1 / 2 ^ 46)"
    by (simp add: double_value_def)
  moreover have "double_value (Double 0x188CCCCCCCCCCD (- 46)) - double_value ?r = 1 / 2 ^ 46"
    by (simp add: double_value_def)
  ultimately show ?thesis
    by (simp only: calculate_memory_access_time_eval nearest_98_2 simp_thms)
qed

end
